theory Spec2Isabelle
  imports Main "HOL-Library.Word"
begin

section \<open>Shape records: factory, decoder and drawing (src/main.cpp)\<close>

subsection \<open>Bytes and the wire representation\<close>

text \<open>
  The reader interface moves raw bytes (\<open>void *dst, size_t size, size_t count\<close>).
  A \<open>double\<close> is never computed with: it is read, stored and handed to the drawer,
  so it is modelled by its 64-bit pattern. A kind tag is the integer value of the
  enum. Sizes and byte order are those of the usual x86-64 ABI:
  \<open>sizeof(Figure::Type) = 4\<close>, \<open>sizeof(double) = 8\<close>, least significant byte first.
\<close>

type_synonym byte = "8 word"
type_synonym double = "64 word"

text \<open>\<open>enum Type { eCircle, eTriangle, eSquare }\<close>: an integer type whose enumerators
  are 0, 1 and 2. \<open>Feature::read\<close> fills a \<open>Type\<close> from raw bytes, so a tag can hold
  any value of the underlying integer.\<close>

type_synonym Type = int

definition eCircle :: Type where "eCircle = 0"
definition eTriangle :: Type where "eTriangle = 1"
definition eSquare :: Type where "eSquare = 2"

definition sizeof_Type :: nat where "sizeof_Type = 4"
definition sizeof_double :: nat where "sizeof_double = 8"

fun Type_of_bytes :: "byte list \<Rightarrow> Type" where
  "Type_of_bytes [] = 0"
| "Type_of_bytes (b # bs) = uint b + 256 * Type_of_bytes bs"

fun double_of_bytes :: "byte list \<Rightarrow> double" where
  "double_of_bytes [] = 0"
| "double_of_bytes (b # bs) = ucast b + 256 * double_of_bytes bs"

text \<open>The contents of a \<open>std::vector<double>\<close> of \<open>n\<close> elements whose storage holds
  the bytes \<open>bs\<close>.\<close>

definition doubles_of_bytes :: "nat \<Rightarrow> byte list \<Rightarrow> double list" where
  "doubles_of_bytes n bs =
     map (\<lambda>i. double_of_bytes (take sizeof_double (drop (sizeof_double * i) bs))) [0..<n]"

subsection \<open>Drawer::IDrawer\<close>

text \<open>The two primitives have no result; their effect is on the surface. The surface is
  modelled by the sequence of calls it has received.\<close>

datatype call = drawCircle double double double | drawPoligon "double list"

type_synonym IDrawer = "call list"

subsection \<open>Figure::Figure and its implementations\<close>

datatype FigureImpl = Circle | Triangle | Square

fun COUNT_PARAMS :: "FigureImpl \<Rightarrow> nat" where
  "COUNT_PARAMS Circle = 3"
| "COUNT_PARAMS Triangle = 6"
| "COUNT_PARAMS Square = 8"

fun TYPE_of :: "FigureImpl \<Rightarrow> Type" where
  "TYPE_of Circle = eCircle"
| "TYPE_of Triangle = eTriangle"
| "TYPE_of Square = eSquare"

text \<open>An object of class \<open>Figure\<close>: the two private fields set by the base constructor,
  and the dynamic class that selects the \<open>draw\<close> override.\<close>

record Figure =
  type_ :: Type
  countParams :: nat
  impl :: FigureImpl

text \<open>\<open>Circle() : Figure(TYPE, COUNT_PARAMS)\<close>, and the same for the other two.\<close>

definition construct :: "FigureImpl \<Rightarrow> Figure" where
  "construct c = \<lparr>type_ = TYPE_of c, countParams = COUNT_PARAMS c, impl = c\<rparr>"

definition Circle_draw :: "IDrawer \<Rightarrow> double list \<Rightarrow> IDrawer" where
  "Circle_draw drawer params =
     (if length params \<ge> COUNT_PARAMS Circle
      then drawer @ [drawCircle (params ! 0) (params ! 1) (params ! 2)]
      else drawer)"

definition Triangle_draw :: "IDrawer \<Rightarrow> double list \<Rightarrow> IDrawer" where
  "Triangle_draw drawer params =
     (if length params \<ge> COUNT_PARAMS Triangle
      then drawer @ [drawPoligon params]
      else drawer)"

definition Square_draw :: "IDrawer \<Rightarrow> double list \<Rightarrow> IDrawer" where
  "Square_draw drawer params =
     (if length params \<ge> COUNT_PARAMS Square
      then drawer @ [drawPoligon params]
      else drawer)"

text \<open>The virtual call \<open>figure->draw(drawer, params)\<close>.\<close>

definition draw :: "Figure \<Rightarrow> IDrawer \<Rightarrow> double list \<Rightarrow> IDrawer" where
  "draw figure drawer params =
     (case impl figure of
        Circle \<Rightarrow> Circle_draw drawer params
      | Triangle \<Rightarrow> Triangle_draw drawer params
      | Square \<Rightarrow> Square_draw drawer params)"

subsection \<open>The free store\<close>

text \<open>Objects made by \<open>new\<close> live in a store; the address of an object is its position.
  Nothing in the program deletes a figure while the decoder is alive.\<close>

type_synonym heap = "Figure list"

definition new :: "FigureImpl \<Rightarrow> heap \<Rightarrow> nat \<times> heap" where
  "new c h = (length h, h @ [construct c])"

subsection \<open>Figure::Factory\<close>

text \<open>\<open>figureFactory\<close> maps a kind to a creator. Every creator is the lambda
  \<open>[]() { return new FigureImpl(); }\<close>, so it is represented by its class.\<close>

type_synonym Factory = "Type \<rightharpoonup> FigureImpl"

text \<open>The private \<open>registerFigure<FigureImpl>(bool &res)\<close>.\<close>

definition registerFigure1 :: "FigureImpl \<Rightarrow> Factory \<times> bool \<Rightarrow> Factory \<times> bool" where
  "registerFigure1 c st =
     (case st of (figureFactory, res) \<Rightarrow>
        (if figureFactory (TYPE_of c) \<noteq> None
         then (figureFactory, False)
         else (figureFactory(TYPE_of c \<mapsto> c), res)))"

text \<open>The public \<open>registerFigure<Args...>()\<close>: the pack is expanded inside a braced
  initialiser, hence from left to right.\<close>

definition registerFigure :: "FigureImpl list \<Rightarrow> Factory \<Rightarrow> bool \<times> Factory" where
  "registerFigure args figureFactory =
     (case foldl (\<lambda>st c. registerFigure1 c st) (figureFactory, True) args of
        (figureFactory', res) \<Rightarrow> (res, figureFactory'))"

text \<open>\<open>createFigure\<close>: \<open>None\<close> is \<open>nullptr\<close>.\<close>

definition createFigure :: "Factory \<Rightarrow> Type \<Rightarrow> heap \<Rightarrow> nat option \<times> heap" where
  "createFigure figureFactory ty h =
     (case figureFactory ty of
        None \<Rightarrow> (None, h)
      | Some creator \<Rightarrow> (case new creator h of (p, h') \<Rightarrow> (Some p, h')))"

subsection \<open>Reader::IReader and Reader::File\<close>

text \<open>\<open>read(dst, size, count)\<close> of a reader whose own state has type \<open>'r\<close>: the bytes
  stored at \<open>dst\<close> when the call returns \<open>true\<close>, \<open>None\<close> when it returns \<open>false\<close>,
  and the reader's state after the call.\<close>

type_synonym 'r IReader = "nat \<Rightarrow> nat \<Rightarrow> 'r \<Rightarrow> byte list option \<times> 'r"

text \<open>\<open>fread\<close> on the rest of a stream: the bytes delivered, the number of complete
  elements among them, and what is left of the stream.\<close>

definition fread :: "nat \<Rightarrow> nat \<Rightarrow> byte list \<Rightarrow> byte list \<times> nat \<times> byte list" where
  "fread sz count bs =
     (let n = min (sz * count) (length bs)
      in (take n bs, (if sz = 0 then 0 else n div sz), drop n bs))"

text \<open>A \<open>File\<close> is the unread rest of the stream, or \<open>None\<close> when \<open>fopen\<close> failed.\<close>

type_synonym File = "byte list option"

definition File_read :: "File IReader" where
  "File_read sz count file =
     (case file of
        None \<Rightarrow> (None, None)
      | Some bs \<Rightarrow>
          (case fread sz count bs of (data, items, rest) \<Rightarrow>
             (if items = count then Some data else None, Some rest)))"

subsection \<open>Feature\<close>

record Feature =
  figures :: "Type \<rightharpoonup> nat"
  currentFigure :: "nat option"
  currentParams :: "double list"

text \<open>The state of a \<open>Feature\<close> right after its constructor.\<close>

definition Feature_init :: Feature where
  "Feature_init = \<lparr>figures = Map.empty, currentFigure = None, currentParams = []\<rparr>"

text \<open>\<open>Feature::read\<close>. The result is the returned flag together with the decoder,
  the store and the reader after the call.\<close>

definition Feature_read ::
  "Factory \<Rightarrow> 'r IReader \<Rightarrow> Feature \<times> heap \<times> 'r \<Rightarrow> bool \<times> Feature \<times> heap \<times> 'r" where
  "Feature_read figureFactory reader st =
     (case st of (f, h, r) \<Rightarrow>
      (case reader sizeof_Type 1 r of
         (None, r1) \<Rightarrow> (False, f, h, r1)
       | (Some tag, r1) \<Rightarrow>
          (let ty = Type_of_bytes tag;
               found =
                 (case figures f ty of
                    Some p \<Rightarrow> Some (p, f, h)
                  | None \<Rightarrow>
                     (case createFigure figureFactory ty h of
                        (None, h1) \<Rightarrow> None
                      | (Some p, h1) \<Rightarrow>
                          Some (p, f\<lparr>figures := (figures f)(ty \<mapsto> p)\<rparr>, h1)))
           in (case found of
                 None \<Rightarrow> (False, f, h, r1)
               | Some (figure, f1, h1) \<Rightarrow>
                  (let n = countParams (h1 ! figure)
                   in (case reader sizeof_double n r1 of
                         (None, r2) \<Rightarrow> (False, f1, h1, r2)
                       | (Some bs, r2) \<Rightarrow>
                           (True,
                            f1\<lparr>currentFigure := Some figure,
                               currentParams := doubles_of_bytes n bs\<rparr>,
                            h1, r2)))))))"

text \<open>\<open>Feature::draw\<close>: a non-const member, so the decoder is returned with the
  surface.\<close>

definition Feature_draw :: "Feature \<Rightarrow> heap \<Rightarrow> IDrawer \<Rightarrow> Feature \<times> IDrawer" where
  "Feature_draw f h drawer =
     (case currentFigure f of
        None \<Rightarrow> (f, drawer)
      | Some p \<Rightarrow> (f, draw (h ! p) drawer (currentParams f)))"

definition isValid :: "Feature \<Rightarrow> bool" where
  "isValid f = (currentFigure f \<noteq> None)"

subsection \<open>Sequences of calls on one decoder\<close>

text \<open>A client may call \<open>read\<close> and \<open>draw\<close> in any order. The state threaded through
  is the decoder, the store, the reader and the surface.\<close>

datatype operation = Decode | Render

fun step ::
  "Factory \<Rightarrow> 'r IReader \<Rightarrow> Feature \<times> heap \<times> 'r \<times> IDrawer \<Rightarrow> operation
     \<Rightarrow> Feature \<times> heap \<times> 'r \<times> IDrawer" where
  "step figureFactory reader (f, h, r, drawer) Decode =
     (case Feature_read figureFactory reader (f, h, r) of
        (ok, f', h', r') \<Rightarrow> (f', h', r', drawer))"
| "step figureFactory reader (f, h, r, drawer) Render =
     (case Feature_draw f h drawer of (f', drawer') \<Rightarrow> (f', h, r, drawer'))"

definition run ::
  "Factory \<Rightarrow> 'r IReader \<Rightarrow> operation list \<Rightarrow> Feature \<times> heap \<times> 'r \<times> IDrawer
     \<Rightarrow> Feature \<times> heap \<times> 'r \<times> IDrawer" where
  "run figureFactory reader ops st = foldl (step figureFactory reader) st ops"

text \<open>Every pointer kept by the decoder designates an object of the store, built by the
  creator that the factory holds for the kind it is cached under.\<close>

definition cache_ok :: "Factory \<Rightarrow> Feature \<Rightarrow> heap \<Rightarrow> bool" where
  "cache_ok figureFactory f h \<longleftrightarrow>
     (\<forall>ty p. figures f ty = Some p \<longrightarrow>
        p < length h \<and> (\<exists>c. figureFactory ty = Some c \<and> h ! p = construct c))"

text \<open>The decoder's cache and the store match one to one: every cached pointer is an
  address of the store, every address of the store is cached, and no address is cached
  under two kinds.\<close>

definition cache_exact :: "Feature \<Rightarrow> heap \<Rightarrow> bool" where
  "cache_exact f h \<longleftrightarrow>
     (\<forall>ty p. figures f ty = Some p \<longrightarrow> p < length h) \<and>
     (\<forall>p<length h. \<exists>ty. figures f ty = Some p) \<and>
     (\<forall>ty ty' p. figures f ty = Some p \<and> figures f ty' = Some p \<longrightarrow> ty = ty')"

subsection \<open>Concrete inputs\<close>

text \<open>The factory of \<open>main\<close>, after
  \<open>registerFigure<Figure::Circle, Figure::Triangle, Figure::Square>()\<close>.\<close>

definition main_factory :: Factory where
  "main_factory = snd (registerFigure [Circle, Triangle, Square] Map.empty)"

text \<open>A file with one record: the tag of a circle, then 1.0, 2.0 and 3.0.\<close>

definition circle_file :: "byte list" where
  "circle_file =
     [0, 0, 0, 0,
      0, 0, 0, 0, 0, 0, 0xF0, 0x3F,
      0, 0, 0, 0, 0, 0, 0, 0x40,
      0, 0, 0, 0, 0, 0, 0x08, 0x40]"

text \<open>The decoder, the store and the file once that record has been read.\<close>

definition circle_held :: "Feature \<times> heap \<times> File" where
  "circle_held =
     (\<lparr>figures = [eCircle \<mapsto> 0], currentFigure = Some 0,
       currentParams = [0x3FF0000000000000, 0x4000000000000000, 0x4008000000000000]\<rparr>,
      [construct Circle], Some [])"

section \<open>Properties\<close>

subsection \<open>Concrete runs\<close>

lemma main_factory_apply:
  "main_factory ty =
     (if ty = eSquare then Some Square else if ty = eTriangle then Some Triangle
      else if ty = eCircle then Some Circle else None)"
  by (simp add: main_factory_def registerFigure_def registerFigure1_def
      eCircle_def eTriangle_def eSquare_def)

lemma decode_circle_file:
  "Feature_read main_factory File_read (Feature_init, [], Some circle_file) = (True, circle_held)"
  by (simp add: Feature_read_def File_read_def fread_def circle_file_def circle_held_def
      sizeof_Type_def sizeof_double_def main_factory_apply Feature_init_def createFigure_def
      new_def construct_def Let_def doubles_of_bytes_def eCircle_def eTriangle_def eSquare_def
      upt_rec)

lemma decode_at_end_of_file:
  "Feature_read main_factory File_read circle_held = (False, circle_held)"
  by (simp add: Feature_read_def File_read_def fread_def circle_held_def sizeof_Type_def)

subsection \<open>What one decode does\<close>

lemma Feature_read_failure_held:
  assumes "Feature_read fac reader (f, h, r) = (False, f', h', r')"
  shows "currentFigure f' = currentFigure f \<and> currentParams f' = currentParams f"
  using assms
  by (auto simp: Feature_read_def Let_def split: prod.splits option.splits)

lemma Feature_read_heap_prefix:
  assumes "Feature_read fac reader (f, h, r) = (ok, f', h', r')"
  shows "take (length h) h' = h"
  using assms
  by (auto simp: Feature_read_def Let_def createFigure_def new_def
      split: prod.splits option.splits)

lemma Feature_read_success_reads:
  assumes "Feature_read fac reader (f, h, r) = (True, f', h', r')"
  shows "\<exists>tag r1 p bs.
           reader sizeof_Type 1 r = (Some tag, r1) \<and>
           figures f' (Type_of_bytes tag) = Some p \<and>
           reader sizeof_double (countParams (h' ! p)) r1 = (Some bs, r') \<and>
           currentFigure f' = Some p \<and>
           currentParams f' = doubles_of_bytes (countParams (h' ! p)) bs"
  using assms
  by (auto simp: Feature_read_def Let_def split: prod.splits option.splits)

lemma Feature_read_keeps_valid:
  assumes "isValid f"
  shows "isValid (fst (snd (Feature_read fac reader (f, h, r))))"
  using assms
  by (auto simp: Feature_read_def isValid_def Let_def split: prod.splits option.splits)

text \<open>The three ways a decode fails, and no other.\<close>

lemma Feature_read_fails_iff:
  "\<not> fst (Feature_read fac reader (f, h, r)) \<longleftrightarrow>
     (case reader sizeof_Type 1 r of
        (None, r1) \<Rightarrow> True
      | (Some tag, r1) \<Rightarrow>
          (case figures f (Type_of_bytes tag) of
             Some p \<Rightarrow> fst (reader sizeof_double (countParams (h ! p)) r1) = None
           | None \<Rightarrow>
               (case fac (Type_of_bytes tag) of
                  None \<Rightarrow> True
                | Some c \<Rightarrow> fst (reader sizeof_double (COUNT_PARAMS c) r1) = None)))"
  by (auto simp: Feature_read_def Let_def createFigure_def new_def construct_def
      split: prod.splits option.splits)

subsection \<open>Failed decodes\<close>

text \<open>
  Claim C1, as the code has it. A call of \<open>Feature::read\<close> that returns \<open>false\<close> (the
  tag could not be read, the kind is neither cached nor registered, or the parameters
  could not be read) leaves the held state as it was: \<open>currentFigure\<close> and
  \<open>currentParams\<close> are unchanged and \<open>isValid()\<close> answers as before. So a decoder that
  held no record is empty afterwards, with \<open>isValid()\<close> \<open>false\<close>, and a decoder that held
  a record still holds it, with \<open>isValid()\<close> \<open>true\<close>.
\<close>

theorem failed_decode_leaves_held_state:
  assumes "Feature_read fac reader (f, h, r) = (False, f', h', r')"
  shows "currentFigure f' = currentFigure f \<and> currentParams f' = currentParams f
       \<and> isValid f' = isValid f
       \<and> (\<not> isValid f \<longrightarrow> currentFigure f' = None \<and> \<not> isValid f')
       \<and> (isValid f \<longrightarrow> currentFigure f' \<noteq> None \<and> isValid f')"
  using Feature_read_failure_held [OF assms]
  by (simp add: isValid_def)

theorem failed_decode_leaves_held_state_witness:
  "Feature_read main_factory File_read (Feature_init, [], Some [])
     = (False, Feature_init, [], Some [])
   \<and> Feature_read main_factory File_read (Feature_init, [], Some [99, 0, 0, 0])
     = (False, Feature_init, [], Some [])
   \<and> Feature_read main_factory File_read (Feature_init, [], Some (take 20 circle_file))
     = (False, Feature_init\<lparr>figures := [eCircle \<mapsto> 0]\<rparr>, [construct Circle], Some [])
   \<and> \<not> isValid Feature_init
   \<and> currentFigure (Feature_init\<lparr>figures := [eCircle \<mapsto> 0]\<rparr>) = None
   \<and> currentParams (Feature_init\<lparr>figures := [eCircle \<mapsto> 0]\<rparr>) = []
   \<and> \<not> isValid (Feature_init\<lparr>figures := [eCircle \<mapsto> 0]\<rparr>)
   \<and> Feature_read main_factory File_read circle_held = (False, circle_held)
   \<and> isValid (fst circle_held)
   \<and> currentFigure (fst circle_held) = Some 0
   \<and> currentParams (fst circle_held)
       = [0x3FF0000000000000, 0x4000000000000000, 0x4008000000000000]"
proof -
  have no_tag: "Feature_read main_factory File_read (Feature_init, [], Some [])
      = (False, Feature_init, [], Some [])"
    by (simp add: Feature_read_def File_read_def fread_def sizeof_Type_def)
  have unknown: "Feature_read main_factory File_read (Feature_init, [], Some [99, 0, 0, 0])
      = (False, Feature_init, [], Some [])"
    by (simp add: Feature_read_def File_read_def fread_def sizeof_Type_def Feature_init_def
        main_factory_apply createFigure_def eCircle_def eTriangle_def eSquare_def Let_def)
  have short: "Feature_read main_factory File_read (Feature_init, [], Some (take 20 circle_file))
      = (False, Feature_init\<lparr>figures := [eCircle \<mapsto> 0]\<rparr>, [construct Circle], Some [])"
    by (simp add: Feature_read_def File_read_def fread_def circle_file_def sizeof_Type_def
        sizeof_double_def main_factory_apply Feature_init_def createFigure_def new_def
        construct_def Let_def eCircle_def eTriangle_def eSquare_def)
  obtain g k q where held: "circle_held = (g, k, q)"
    by (cases circle_held) auto
  have eof: "Feature_read main_factory File_read (g, k, q) = (False, g, k, q)"
    using decode_at_end_of_file by (simp add: held)
  have fresh: "\<not> isValid Feature_init" "currentParams Feature_init = []"
    by (simp_all add: isValid_def Feature_init_def)
  have holding: "isValid (fst circle_held)"
    "currentFigure (fst circle_held) = Some 0"
    "currentParams (fst circle_held)
       = [0x3FF0000000000000, 0x4000000000000000, 0x4008000000000000]"
    by (simp_all add: isValid_def circle_held_def)
  note a = failed_decode_leaves_held_state [OF no_tag]
    and b = failed_decode_leaves_held_state [OF unknown]
    and c = failed_decode_leaves_held_state [OF short]
    and d = failed_decode_leaves_held_state [OF eof]
  from c fresh have after_short:
    "currentFigure (Feature_init\<lparr>figures := [eCircle \<mapsto> 0]\<rparr>) = None"
    "currentParams (Feature_init\<lparr>figures := [eCircle \<mapsto> 0]\<rparr>) = []"
    "\<not> isValid (Feature_init\<lparr>figures := [eCircle \<mapsto> 0]\<rparr>)"
    by simp_all
  from a b d no_tag unknown short fresh after_short holding decode_at_end_of_file
  show ?thesis
    by simp
qed

text \<open>
  Claim C1 as stated does not hold. After the record of \<open>circle_file\<close> has been decoded
  the decoder holds the circle; a further \<open>read\<close> returns \<open>false\<close> when the file is at
  its end, when the next tag is 99, and when the next record is a circle cut short after
  three bytes of parameters; each time \<open>isValid()\<close> is still \<open>true\<close>.
\<close>

theorem failed_decode_not_always_empty:
  "Feature_read main_factory File_read (Feature_init, [], Some circle_file) = (True, circle_held)
   \<and> \<not> fst (Feature_read main_factory File_read circle_held)
   \<and> isValid (fst (snd (Feature_read main_factory File_read circle_held)))
   \<and> Feature_read main_factory File_read (Feature_init, [], Some (circle_file @ [99, 0, 0, 0]))
       = (True, fst circle_held, fst (snd circle_held), Some [99, 0, 0, 0])
   \<and> \<not> fst (Feature_read main_factory File_read
          (fst circle_held, fst (snd circle_held), Some [99, 0, 0, 0]))
   \<and> isValid (fst (snd (Feature_read main_factory File_read
          (fst circle_held, fst (snd circle_held), Some [99, 0, 0, 0]))))
   \<and> Feature_read main_factory File_read
          (Feature_init, [], Some (circle_file @ [0, 0, 0, 0, 1, 2, 3]))
       = (True, fst circle_held, fst (snd circle_held), Some [0, 0, 0, 0, 1, 2, 3])
   \<and> \<not> fst (Feature_read main_factory File_read
          (fst circle_held, fst (snd circle_held), Some [0, 0, 0, 0, 1, 2, 3]))
   \<and> isValid (fst (snd (Feature_read main_factory File_read
          (fst circle_held, fst (snd circle_held), Some [0, 0, 0, 0, 1, 2, 3]))))"
proof -
  have valid: "isValid (fst circle_held)"
    by (simp add: circle_held_def isValid_def)
  have eof: "Feature_read main_factory File_read circle_held = (False, circle_held)"
    by (rule decode_at_end_of_file)
  have first_unknown:
    "Feature_read main_factory File_read (Feature_init, [], Some (circle_file @ [99, 0, 0, 0]))
       = (True, fst circle_held, fst (snd circle_held), Some [99, 0, 0, 0])"
    by (simp add: Feature_read_def File_read_def fread_def circle_file_def circle_held_def
        sizeof_Type_def sizeof_double_def main_factory_apply Feature_init_def createFigure_def
        new_def construct_def Let_def doubles_of_bytes_def eCircle_def eTriangle_def
        eSquare_def upt_rec)
  have unknown: "Feature_read main_factory File_read
          (fst circle_held, fst (snd circle_held), Some [99, 0, 0, 0])
       = (False, fst circle_held, fst (snd circle_held), Some [])"
    by (simp add: Feature_read_def File_read_def fread_def circle_held_def sizeof_Type_def
        main_factory_apply createFigure_def eCircle_def eTriangle_def eSquare_def Let_def)
  have first_short:
    "Feature_read main_factory File_read
          (Feature_init, [], Some (circle_file @ [0, 0, 0, 0, 1, 2, 3]))
       = (True, fst circle_held, fst (snd circle_held), Some [0, 0, 0, 0, 1, 2, 3])"
    by (simp add: Feature_read_def File_read_def fread_def circle_file_def circle_held_def
        sizeof_Type_def sizeof_double_def main_factory_apply Feature_init_def createFigure_def
        new_def construct_def Let_def doubles_of_bytes_def eCircle_def eTriangle_def
        eSquare_def upt_rec)
  have short: "Feature_read main_factory File_read
          (fst circle_held, fst (snd circle_held), Some [0, 0, 0, 0, 1, 2, 3])
       = (False, fst circle_held, fst (snd circle_held), Some [])"
    by (simp add: Feature_read_def File_read_def fread_def circle_held_def sizeof_Type_def
        sizeof_double_def construct_def eCircle_def Let_def)
  from valid show ?thesis
    by (simp add: decode_circle_file eof first_unknown unknown first_short short)
qed

text \<open>
  Claim C2. A call of \<open>Feature::read\<close> that returns \<open>false\<close> leaves \<open>currentFigure\<close> and
  \<open>currentParams\<close> exactly as they were, and every object of the store as it was. The
  record is replaced only by a call that returns \<open>true\<close>, and such a call has read the
  tag and all the parameters of the figure it now holds.
\<close>

theorem failed_decode_keeps_held_record:
  assumes "Feature_read fac reader (f, h, r) = (ok, f', h', r')"
  shows "(\<not> ok \<longrightarrow>
            currentFigure f' = currentFigure f \<and> currentParams f' = currentParams f \<and>
            take (length h) h' = h)
       \<and> (ok \<longrightarrow>
            (\<exists>tag r1 p bs.
               reader sizeof_Type 1 r = (Some tag, r1) \<and>
               reader sizeof_double (countParams (h' ! p)) r1 = (Some bs, r') \<and>
               currentFigure f' = Some p \<and>
               currentParams f' = doubles_of_bytes (countParams (h' ! p)) bs))"
proof (cases ok)
  case False
  with assms Feature_read_failure_held [of fac reader f h r f' h' r']
    Feature_read_heap_prefix [OF assms]
  show ?thesis by simp
next
  case True
  with assms have "Feature_read fac reader (f, h, r) = (True, f', h', r')"
    by simp
  from Feature_read_success_reads [OF this] obtain tag r1 p bs where
    "reader sizeof_Type 1 r = (Some tag, r1)"
    "reader sizeof_double (countParams (h' ! p)) r1 = (Some bs, r')"
    "currentFigure f' = Some p"
    "currentParams f' = doubles_of_bytes (countParams (h' ! p)) bs"
    by blast
  then have "\<exists>tag r1 p bs.
      reader sizeof_Type 1 r = (Some tag, r1) \<and>
      reader sizeof_double (countParams (h' ! p)) r1 = (Some bs, r') \<and>
      currentFigure f' = Some p \<and>
      currentParams f' = doubles_of_bytes (countParams (h' ! p)) bs"
    by blast
  with True show ?thesis by simp
qed

theorem failed_decode_keeps_held_record_witness:
  "Feature_read main_factory File_read circle_held = (False, circle_held)
   \<and> currentFigure (fst circle_held) = Some 0
   \<and> currentParams (fst circle_held)
       = [0x3FF0000000000000, 0x4000000000000000, 0x4008000000000000]
   \<and> Feature_read main_factory File_read (Feature_init, [], Some circle_file) = (True, circle_held)
   \<and> File_read sizeof_Type 1 (Some circle_file) = (Some [0, 0, 0, 0], Some (drop 4 circle_file))
   \<and> File_read sizeof_double 3 (Some (drop 4 circle_file)) = (Some (drop 4 circle_file), Some [])"
proof -
  obtain f h r where held: "circle_held = (f, h, r)"
    by (cases circle_held) auto
  have 1: "Feature_read main_factory File_read (f, h, r) = (False, f, h, r)"
    using decode_at_end_of_file by (simp add: held)
  have 2: "Feature_read main_factory File_read (Feature_init, [], Some circle_file) = (True, f, h, r)"
    using decode_circle_file by (simp add: held)
  note failed_decode_keeps_held_record [OF 1] failed_decode_keeps_held_record [OF 2]
  then show ?thesis
    using decode_at_end_of_file decode_circle_file
    by (simp add: circle_held_def File_read_def fread_def sizeof_Type_def sizeof_double_def
        circle_file_def)
qed

subsection \<open>Validity is never lost\<close>

lemma step_keeps_valid:
  assumes "isValid (fst st)"
  shows "isValid (fst (step fac reader st opn))"
proof (cases st)
  case (fields f h r drawer)
  show ?thesis
  proof (cases opn)
    case Decode
    obtain ok f' h' r' where res: "Feature_read fac reader (f, h, r) = (ok, f', h', r')"
      by (cases "Feature_read fac reader (f, h, r)") auto
    from fields assms Feature_read_keeps_valid [of f fac reader h r] res
    have "isValid f'" by simp
    with fields Decode res show ?thesis by simp
  next
    case Render
    with fields assms show ?thesis
      by (simp add: Feature_draw_def split: option.splits)
  qed
qed

lemma run_keeps_valid:
  "isValid (fst st) \<Longrightarrow> isValid (fst (run fac reader ops st))"
  unfolding run_def
  by (induction ops arbitrary: st) (simp_all add: step_keeps_valid)

text \<open>
  Claim C10. Once \<open>isValid()\<close> is \<open>true\<close> it stays \<open>true\<close>: after one more \<open>read\<close>,
  whether it returns \<open>true\<close> or \<open>false\<close>, after one more \<open>draw\<close>, and after any
  sequence of \<open>read\<close> and \<open>draw\<close> calls, with any factory and any reader.
\<close>

theorem valid_is_never_lost:
  assumes "isValid f"
  shows "isValid (fst (snd (Feature_read fac reader (f, h, r))))
       \<and> isValid (fst (Feature_draw f h drawer))
       \<and> isValid (fst (run fac reader ops (f, h, r, drawer)))"
proof -
  have "isValid (fst (snd (Feature_read fac reader (f, h, r))))"
    using assms by (rule Feature_read_keeps_valid)
  moreover have "isValid (fst (Feature_draw f h drawer))"
    using assms by (simp add: Feature_draw_def split: option.splits)
  moreover have "isValid (fst (run fac reader ops (f, h, r, drawer)))"
    using assms run_keeps_valid [of "(f, h, r, drawer)" fac reader ops] by simp
  ultimately show ?thesis by simp
qed

theorem valid_is_never_lost_witness:
  "isValid (fst circle_held)
   \<and> fst (Feature_read main_factory File_read circle_held) = False
   \<and> isValid (fst (snd (Feature_read main_factory File_read circle_held)))
   \<and> isValid (fst (run main_factory File_read [Decode, Render, Decode, Render]
        (fst circle_held, fst (snd circle_held), snd (snd circle_held), [])))"
proof -
  have v: "isValid (fst circle_held)"
    by (simp add: circle_held_def isValid_def)
  from valid_is_never_lost [OF v, of main_factory File_read "fst (snd circle_held)"
      "snd (snd circle_held)" "[]" "[Decode, Render, Decode, Render]"] v
  show ?thesis
    by (simp add: decode_at_end_of_file)
qed

subsection \<open>Drawing one figure\<close>

lemma draw_short:
  "length params < COUNT_PARAMS (impl figure) \<Longrightarrow> draw figure drawer params = drawer"
  by (cases "impl figure") (simp_all add: draw_def Circle_draw_def Triangle_draw_def Square_draw_def)

lemma draw_appends: "draw figure drawer params = drawer @ draw figure [] params"
  by (cases "impl figure") (simp_all add: draw_def Circle_draw_def Triangle_draw_def Square_draw_def)

lemma createFigure_registered:
  "figureFactory ty = Some c \<Longrightarrow>
     createFigure figureFactory ty h = (Some (length h), h @ [construct c])"
  by (simp add: createFigure_def new_def)

lemma createFigure_unregistered:
  "figureFactory ty = None \<Longrightarrow> createFigure figureFactory ty h = (None, h)"
  by (simp add: createFigure_def)

lemma three_elements:
  assumes "length xs = 3"
  shows "xs = [xs ! 0, xs ! 1, xs ! 2]"
proof -
  from assms obtain a b c where "xs = [a, b, c]"
    by (cases xs; cases "tl xs"; cases "tl (tl xs)") auto
  then show ?thesis by simp
qed

text \<open>
  Claim C4. For a kind registered with the creator of class \<open>c\<close>, \<open>createFigure\<close>
  followed by \<open>draw\<close> with exactly \<open>COUNT_PARAMS c\<close> parameters adds exactly one call to
  the surface: for the circle \<open>drawCircle(params[0], params[1], params[2])\<close>, and these
  three are all the parameters; for the triangle and the square \<open>drawPoligon\<close> with the
  whole parameter list.
\<close>

theorem draw_with_exact_params:
  assumes "figureFactory ty = Some c" and "length params = COUNT_PARAMS c"
  shows "fst (createFigure figureFactory ty h) = Some (length h)
       \<and> (c = Circle \<longrightarrow>
            draw (snd (createFigure figureFactory ty h) ! length h) drawer params
              = drawer @ [drawCircle (params ! 0) (params ! 1) (params ! 2)]
            \<and> params = [params ! 0, params ! 1, params ! 2])
       \<and> (c = Triangle \<or> c = Square \<longrightarrow>
            draw (snd (createFigure figureFactory ty h) ! length h) drawer params
              = drawer @ [drawPoligon params])"
proof -
  have obj: "snd (createFigure figureFactory ty h) ! length h = construct c"
    using assms(1) by (simp add: createFigure_registered)
  have "fst (createFigure figureFactory ty h) = Some (length h)"
    using assms(1) by (simp add: createFigure_registered)
  moreover have "draw (construct Circle) drawer params
       = drawer @ [drawCircle (params ! 0) (params ! 1) (params ! 2)]
       \<and> params = [params ! 0, params ! 1, params ! 2]" if "c = Circle"
    using that assms(2) three_elements [of params]
    by (simp add: draw_def construct_def Circle_draw_def)
  moreover have "draw (construct c) drawer params = drawer @ [drawPoligon params]"
    if "c = Triangle \<or> c = Square"
    using that assms(2)
    by (auto simp: draw_def construct_def Triangle_draw_def Square_draw_def)
  ultimately show ?thesis
    by (simp add: obj)
qed

theorem draw_with_exact_params_witness:
  "main_factory eCircle = Some Circle \<and> main_factory eTriangle = Some Triangle
   \<and> fst (createFigure main_factory eCircle []) = Some 0
   \<and> draw (snd (createFigure main_factory eCircle []) ! 0) [] [10, 20, 30]
       = [drawCircle 10 20 30]
   \<and> draw (snd (createFigure main_factory eTriangle []) ! 0) [] [0, 0, 1, 0, 0, 1]
       = [drawPoligon [0, 0, 1, 0, 0, 1]]"
proof -
  have c: "main_factory eCircle = Some Circle" and t: "main_factory eTriangle = Some Triangle"
    by (simp_all add: main_factory_apply eCircle_def eTriangle_def eSquare_def)
  have lc: "length [10, 20, 30 :: double] = COUNT_PARAMS Circle"
    and lt: "length [0, 0, 1, 0, 0, 1 :: double] = COUNT_PARAMS Triangle"
    by simp_all
  note draw_with_exact_params [where figureFactory = main_factory and ty = eCircle
      and c = Circle and params = "[10, 20, 30]" and h = "[]" and drawer = "[]"]
    draw_with_exact_params [where figureFactory = main_factory and ty = eTriangle
      and c = Triangle and params = "[0, 0, 1, 0, 0, 1]" and h = "[]" and drawer = "[]"]
  with c t lc lt show ?thesis by simp
qed

text \<open>
  Claim C6. A figure of any of the three classes, asked to draw with fewer parameters
  than its class requires, makes no call on the surface.
\<close>

theorem draw_with_few_params_is_noop:
  assumes "length params < COUNT_PARAMS (impl figure)"
  shows "draw figure drawer params = drawer"
  using assms by (rule draw_short)

theorem draw_with_few_params_is_noop_witness:
  "length [10, 20 :: double] < COUNT_PARAMS (impl (construct Circle))
   \<and> draw (construct Circle) [] [10, 20] = []
   \<and> length [1, 2, 3, 4, 5 :: double] < COUNT_PARAMS (impl (construct Triangle))
   \<and> draw (construct Triangle) [] [1, 2, 3, 4, 5] = []
   \<and> length [1, 2, 3, 4, 5, 6, 7 :: double] < COUNT_PARAMS (impl (construct Square))
   \<and> draw (construct Square) [] [1, 2, 3, 4, 5, 6, 7] = []"
proof -
  have 1: "length [10, 20 :: double] < COUNT_PARAMS (impl (construct Circle))"
    and 2: "length [1, 2, 3, 4, 5 :: double] < COUNT_PARAMS (impl (construct Triangle))"
    and 3: "length [1, 2, 3, 4, 5, 6, 7 :: double] < COUNT_PARAMS (impl (construct Square))"
    by (simp_all add: construct_def)
  from draw_with_few_params_is_noop [OF 1, of "[]"] draw_with_few_params_is_noop [OF 2, of "[]"]
    draw_with_few_params_is_noop [OF 3, of "[]"] 1 2 3
  show ?thesis by simp
qed

subsection \<open>Rendering the held record\<close>

text \<open>
  Claim C8. \<open>Feature::draw\<close> never changes the decoder. Without a record it leaves the
  surface as it is; with a record it is the held figure's \<open>draw\<close> on the held
  parameters. The calls it adds do not depend on what the surface has already received,
  so two calls in a row add the same sequence of calls twice.
\<close>

theorem render_is_repeatable:
  "fst (Feature_draw f h drawer) = f
   \<and> (\<not> isValid f \<longrightarrow> snd (Feature_draw f h drawer) = drawer)
   \<and> (\<forall>p. currentFigure f = Some p \<longrightarrow>
        snd (Feature_draw f h drawer) = draw (h ! p) drawer (currentParams f))
   \<and> snd (Feature_draw f h drawer) = drawer @ snd (Feature_draw f h [])
   \<and> Feature_draw (fst (Feature_draw f h drawer)) h (snd (Feature_draw f h drawer))
       = (f, drawer @ snd (Feature_draw f h []) @ snd (Feature_draw f h []))"
proof -
  have same: "fst (Feature_draw f h d) = f" for d
    by (simp add: Feature_draw_def split: option.splits)
  have app: "snd (Feature_draw f h d) = d @ snd (Feature_draw f h [])" for d
    using draw_appends [of _ d "currentParams f"]
    by (simp add: Feature_draw_def split: option.splits)
  have twice: "Feature_draw (fst (Feature_draw f h drawer)) h (snd (Feature_draw f h drawer))
       = (f, drawer @ snd (Feature_draw f h []) @ snd (Feature_draw f h []))"
    using same [of "snd (Feature_draw f h drawer)"] app [of "snd (Feature_draw f h drawer)"]
      app [of drawer]
    by (simp add: same prod_eq_iff)
  have "\<not> isValid f \<longrightarrow> snd (Feature_draw f h drawer) = drawer"
    by (simp add: Feature_draw_def isValid_def)
  moreover have "\<forall>p. currentFigure f = Some p \<longrightarrow>
        snd (Feature_draw f h drawer) = draw (h ! p) drawer (currentParams f)"
    by (simp add: Feature_draw_def)
  ultimately show ?thesis
    using same [of drawer] app [of drawer] twice by blast
qed

theorem render_is_repeatable_witness:
  "\<not> isValid Feature_init \<and> Feature_draw Feature_init [] [] = (Feature_init, [])
   \<and> currentFigure (fst circle_held) = Some 0
   \<and> Feature_draw (fst circle_held) (fst (snd circle_held)) []
       = (fst circle_held,
          [drawCircle 0x3FF0000000000000 0x4000000000000000 0x4008000000000000])
   \<and> Feature_draw (fst (Feature_draw (fst circle_held) (fst (snd circle_held)) []))
        (fst (snd circle_held)) (snd (Feature_draw (fst circle_held) (fst (snd circle_held)) []))
       = (fst circle_held,
          [drawCircle 0x3FF0000000000000 0x4000000000000000 0x4008000000000000,
           drawCircle 0x3FF0000000000000 0x4000000000000000 0x4008000000000000])"
proof -
  have d: "snd (Feature_draw (fst circle_held) (fst (snd circle_held)) [])
      = [drawCircle 0x3FF0000000000000 0x4000000000000000 0x4008000000000000]"
    by (simp add: Feature_draw_def circle_held_def draw_def construct_def Circle_draw_def)
  have e: "\<not> isValid Feature_init" "currentFigure (fst circle_held) = Some 0"
    by (simp_all add: isValid_def Feature_init_def circle_held_def)
  have i: "Feature_draw Feature_init [] [] = (Feature_init, [])"
    using render_is_repeatable [of Feature_init "[]" "[]"] e(1)
    by (simp add: prod_eq_iff)
  have once: "Feature_draw (fst circle_held) (fst (snd circle_held)) []
       = (fst circle_held,
          [drawCircle 0x3FF0000000000000 0x4000000000000000 0x4008000000000000])"
    using render_is_repeatable [of "fst circle_held" "fst (snd circle_held)" "[]"] d
    by (simp add: prod_eq_iff)
  have twice: "Feature_draw (fst (Feature_draw (fst circle_held) (fst (snd circle_held)) []))
        (fst (snd circle_held)) (snd (Feature_draw (fst circle_held) (fst (snd circle_held)) []))
       = (fst circle_held,
          [drawCircle 0x3FF0000000000000 0x4000000000000000 0x4008000000000000,
           drawCircle 0x3FF0000000000000 0x4000000000000000 0x4008000000000000])"
  proof -
    from render_is_repeatable [of "fst circle_held" "fst (snd circle_held)" "[]"]
    have "Feature_draw (fst (Feature_draw (fst circle_held) (fst (snd circle_held)) []))
        (fst (snd circle_held)) (snd (Feature_draw (fst circle_held) (fst (snd circle_held)) []))
       = (fst circle_held,
          [] @ snd (Feature_draw (fst circle_held) (fst (snd circle_held)) [])
             @ snd (Feature_draw (fst circle_held) (fst (snd circle_held)) []))"
      by blast
    then show ?thesis by (simp add: d)
  qed
  from e i once twice show ?thesis by blast
qed

subsection \<open>Registration\<close>

lemma registerFigure_Nil: "registerFigure [] fac = (True, fac)"
  by (simp add: registerFigure_def)

lemma registerFigure_snoc:
  "registerFigure (args @ [c]) fac =
     (if snd (registerFigure args fac) (TYPE_of c) \<noteq> None
      then (False, snd (registerFigure args fac))
      else (fst (registerFigure args fac), (snd (registerFigure args fac))(TYPE_of c \<mapsto> c)))"
proof -
  obtain g res where fo: "foldl (\<lambda>st c. registerFigure1 c st) (fac, True) args = (g, res)"
    by (cases "foldl (\<lambda>st c. registerFigure1 c st) (fac, True) args") auto
  have last: "registerFigure1 c (g, res) =
      (if g (TYPE_of c) \<noteq> None then (g, False) else (g(TYPE_of c \<mapsto> c), res))"
    by (simp add: registerFigure1_def)
  show ?thesis
    by (simp add: registerFigure_def fo last)
qed

lemma registerFigure_single:
  "registerFigure [c] fac =
     (if fac (TYPE_of c) \<noteq> None then (False, fac) else (True, fac(TYPE_of c \<mapsto> c)))"
  using registerFigure_snoc [of "[]" c fac] by (simp add: registerFigure_Nil)

lemma registerFigure_keeps_entry:
  "fac ty = Some c0 \<Longrightarrow> snd (registerFigure args fac) ty = Some c0"
  by (induction args rule: rev_induct) (auto simp: registerFigure_Nil registerFigure_snoc)

lemma registerFigure_dom:
  "dom (snd (registerFigure args fac)) = dom fac \<union> TYPE_of ` set args"
proof (induction args rule: rev_induct)
  case Nil
  show ?case by (simp add: registerFigure_Nil)
next
  case (snoc c args)
  show ?case
  proof (cases "snd (registerFigure args fac) (TYPE_of c)")
    case None
    then have "snd (registerFigure (args @ [c]) fac)
        = (snd (registerFigure args fac))(TYPE_of c \<mapsto> c)"
      by (simp add: registerFigure_snoc)
    then have "dom (snd (registerFigure (args @ [c]) fac))
        = insert (TYPE_of c) (dom (snd (registerFigure args fac)))"
      by (simp only: dom_fun_upd) simp
    with snoc show ?thesis by simp
  next
    case (Some c0)
    then have "TYPE_of c \<in> dom (snd (registerFigure args fac))"
      by (simp add: domI)
    then have "TYPE_of c \<in> dom fac \<union> TYPE_of ` set args"
      by (simp only: snoc)
    with Some show ?thesis
      by (auto simp: registerFigure_snoc snoc)
  qed
qed

lemma registerFigure_each:
  "fst (registerFigure args fac) \<longleftrightarrow>
     (\<forall>i<length args. snd (registerFigure (take i args) fac) (TYPE_of (args ! i)) = None)"
proof (induction args rule: rev_induct)
  case Nil
  show ?case by (simp add: registerFigure_Nil)
next
  case (snoc c args)
  have "(\<forall>i<length (args @ [c]).
           snd (registerFigure (take i (args @ [c])) fac) (TYPE_of ((args @ [c]) ! i)) = None)
      \<longleftrightarrow> (\<forall>i<length args. snd (registerFigure (take i args) fac) (TYPE_of (args ! i)) = None)
          \<and> snd (registerFigure args fac) (TYPE_of c) = None"
    by (auto simp: less_Suc_eq nth_append)
  with snoc show ?case
    by (auto simp: registerFigure_snoc)
qed

lemma registerFigure_distinct:
  "fst (registerFigure args fac) \<longleftrightarrow>
     distinct (map TYPE_of args) \<and> (\<forall>c\<in>set args. fac (TYPE_of c) = None)"
proof (induction args rule: rev_induct)
  case Nil
  show ?case by (simp add: registerFigure_Nil)
next
  case (snoc c args)
  have "snd (registerFigure args fac) (TYPE_of c) = None
      \<longleftrightarrow> TYPE_of c \<notin> dom (snd (registerFigure args fac))"
    by (simp add: domIff)
  also have "\<dots> \<longleftrightarrow> TYPE_of c \<notin> dom fac \<union> TYPE_of ` set args"
    by (simp only: registerFigure_dom)
  also have "\<dots> \<longleftrightarrow> fac (TYPE_of c) = None \<and> TYPE_of c \<notin> TYPE_of ` set args"
    by (auto simp: domIff)
  finally have "snd (registerFigure args fac) (TYPE_of c) = None
      \<longleftrightarrow> fac (TYPE_of c) = None \<and> TYPE_of c \<notin> TYPE_of ` set args" .
  with snoc show ?case
    by (auto simp: registerFigure_snoc)
qed

text \<open>
  Claim C3. When the kind of class \<open>c\<close> is already in the factory, with the creator of
  class \<open>c0\<close>: the private \<open>registerFigure<c>(res)\<close> sets \<open>res\<close> to \<open>false\<close> and leaves the
  map alone; the public \<open>registerFigure<c>()\<close> returns \<open>false\<close> and leaves the factory
  as it was; \<open>createFigure\<close> for that kind afterwards still builds an object of class
  \<open>c0\<close>; and any batch that contains \<open>c\<close> returns \<open>false\<close> and keeps the entry.
\<close>

theorem duplicate_registration_is_rejected:
  assumes "figureFactory (TYPE_of c) = Some c0"
  shows "registerFigure1 c (figureFactory, res) = (figureFactory, False)
       \<and> registerFigure [c] figureFactory = (False, figureFactory)
       \<and> createFigure (snd (registerFigure [c] figureFactory)) (TYPE_of c) h
           = (Some (length h), h @ [construct c0])
       \<and> (c \<in> set args \<longrightarrow>
            \<not> fst (registerFigure args figureFactory) \<and>
            snd (registerFigure args figureFactory) (TYPE_of c) = Some c0)"
proof -
  have 1: "registerFigure1 c (figureFactory, res) = (figureFactory, False)"
    using assms by (simp add: registerFigure1_def)
  have 2: "registerFigure [c] figureFactory = (False, figureFactory)"
    using assms by (simp add: registerFigure_single)
  have 3: "createFigure (snd (registerFigure [c] figureFactory)) (TYPE_of c) h
           = (Some (length h), h @ [construct c0])"
    using assms by (simp add: 2 createFigure_registered)
  have 4: "\<not> fst (registerFigure args figureFactory)" if "c \<in> set args"
    using that assms by (auto simp: registerFigure_distinct)
  have 5: "snd (registerFigure args figureFactory) (TYPE_of c) = Some c0"
    using assms by (rule registerFigure_keeps_entry)
  from 1 2 3 4 5 show ?thesis by blast
qed

theorem duplicate_registration_is_rejected_witness:
  "registerFigure [Circle] Map.empty = (True, [eCircle \<mapsto> Circle])
   \<and> registerFigure [Circle] [eCircle \<mapsto> Circle] = (False, [eCircle \<mapsto> Circle])
   \<and> createFigure (snd (registerFigure [Circle] [eCircle \<mapsto> Circle])) eCircle []
       = (Some 0, [construct Circle])
   \<and> Circle \<in> set [Triangle, Circle]
   \<and> \<not> fst (registerFigure [Triangle, Circle] [eCircle \<mapsto> Circle])
   \<and> snd (registerFigure [Triangle, Circle] [eCircle \<mapsto> Circle]) eCircle = Some Circle"
proof -
  have first: "registerFigure [Circle] Map.empty = (True, [eCircle \<mapsto> Circle])"
    by (simp add: registerFigure_single)
  have present: "[eCircle \<mapsto> Circle] (TYPE_of Circle) = Some Circle"
    by simp
  have member: "Circle \<in> set [Triangle, Circle]"
    by simp
  note dup = duplicate_registration_is_rejected [where figureFactory = "[eCircle \<mapsto> Circle]"
      and c = Circle and ?c0.0 = Circle and h = "[]" and args = "[Triangle, Circle]"
      and res = True, OF present]
  from dup have again: "registerFigure [Circle] [eCircle \<mapsto> Circle] = (False, [eCircle \<mapsto> Circle])"
    by blast
  note create = dup [THEN conjunct2, THEN conjunct2, THEN conjunct1]
  from dup member have batch: "\<not> fst (registerFigure [Triangle, Circle] [eCircle \<mapsto> Circle])"
    "snd (registerFigure [Triangle, Circle] [eCircle \<mapsto> Circle]) (TYPE_of Circle) = Some Circle"
    by blast+
  from first again create batch show ?thesis
    by simp
qed

text \<open>
  Claim C9. The batch \<open>registerFigure<Args...>()\<close> returns \<open>true\<close> exactly when each
  registration of the batch, taken alone on the factory as the earlier ones left it,
  succeeds; that is, when the kinds of the batch are pairwise different and none was in
  the factory before. One duplicate, wherever it stands, makes the result \<open>false\<close>.
\<close>

theorem batch_registration_result:
  "(fst (registerFigure args fac) \<longleftrightarrow>
      (\<forall>i<length args.
         fst (registerFigure [args ! i] (snd (registerFigure (take i args) fac)))))
   \<and> (fst (registerFigure args fac) \<longleftrightarrow>
        distinct (map TYPE_of args) \<and> (\<forall>c\<in>set args. fac (TYPE_of c) = None))"
proof -
  have "fst (registerFigure [c] g) \<longleftrightarrow> g (TYPE_of c) = None" for c g
    by (simp add: registerFigure_single)
  then show ?thesis
    using registerFigure_each [of args fac] registerFigure_distinct [of args fac]
    by simp
qed

theorem batch_registration_result_witness:
  "fst (registerFigure [Circle, Triangle, Square] Map.empty)
   \<and> fst (registerFigure [Circle] Map.empty)
   \<and> fst (registerFigure [Triangle] (snd (registerFigure [Circle] Map.empty)))
   \<and> fst (registerFigure [Square] (snd (registerFigure [Circle, Triangle] Map.empty)))
   \<and> \<not> fst (registerFigure [Circle, Triangle, Circle] Map.empty)
   \<and> \<not> fst (registerFigure [Circle] (snd (registerFigure [Circle, Triangle] Map.empty)))"
proof -
  have ev: "fst (registerFigure [Circle] Map.empty)"
    "fst (registerFigure [Triangle] (snd (registerFigure [Circle] Map.empty)))"
    "fst (registerFigure [Square] (snd (registerFigure [Circle, Triangle] Map.empty)))"
    "\<not> fst (registerFigure [Circle] (snd (registerFigure [Circle, Triangle] Map.empty)))"
    by (simp_all add: registerFigure_def registerFigure1_def eCircle_def eTriangle_def
        eSquare_def)
  have d: "distinct (map TYPE_of [Circle, Triangle, Square])"
    "\<not> distinct (map TYPE_of [Circle, Triangle, Circle])"
    by (simp_all add: eCircle_def eTriangle_def eSquare_def)
  from batch_registration_result [of "[Circle, Triangle, Square]" Map.empty]
  have "fst (registerFigure [Circle, Triangle, Square] Map.empty) \<longleftrightarrow>
      distinct (map TYPE_of [Circle, Triangle, Square])
      \<and> (\<forall>c\<in>set [Circle, Triangle, Square]. Map.empty (TYPE_of c) = None)"
    by blast
  with d have all: "fst (registerFigure [Circle, Triangle, Square] Map.empty)"
    by simp
  from batch_registration_result [of "[Circle, Triangle, Circle]" Map.empty]
  have "fst (registerFigure [Circle, Triangle, Circle] Map.empty) \<longleftrightarrow>
      distinct (map TYPE_of [Circle, Triangle, Circle])
      \<and> (\<forall>c\<in>set [Circle, Triangle, Circle]. Map.empty (TYPE_of c) = None)"
    by blast
  with d have dup: "\<not> fst (registerFigure [Circle, Triangle, Circle] Map.empty)"
    by simp
  from ev all dup show ?thesis by simp
qed

subsection \<open>The cache of figures\<close>

lemma cache_ok_init: "cache_ok fac Feature_init []"
  by (simp add: cache_ok_def Feature_init_def)

lemma cache_exact_init: "cache_exact Feature_init []"
  by (simp add: cache_exact_def Feature_init_def)

text \<open>A decode, spelt out by the state of the cache for the kind that was read.\<close>

lemma Feature_read_no_tag:
  assumes "reader sizeof_Type 1 r = (None, r1)"
  shows "Feature_read fac reader (f, h, r) = (False, f, h, r1)"
  using assms by (simp add: Feature_read_def)

lemma Feature_read_unknown:
  assumes "reader sizeof_Type 1 r = (Some tag, r1)"
    and "figures f (Type_of_bytes tag) = None" and "fac (Type_of_bytes tag) = None"
  shows "Feature_read fac reader (f, h, r) = (False, f, h, r1)"
  using assms by (simp add: Feature_read_def createFigure_def)

lemma Feature_read_hit:
  assumes "reader sizeof_Type 1 r = (Some tag, r1)"
    and "figures f (Type_of_bytes tag) = Some p"
  shows "Feature_read fac reader (f, h, r) =
     (case reader sizeof_double (countParams (h ! p)) r1 of
        (None, r2) \<Rightarrow> (False, f, h, r2)
      | (Some bs, r2) \<Rightarrow>
          (True, f\<lparr>currentFigure := Some p,
                   currentParams := doubles_of_bytes (countParams (h ! p)) bs\<rparr>, h, r2))"
  using assms by (simp add: Feature_read_def Let_def)

lemma Feature_read_miss:
  assumes "reader sizeof_Type 1 r = (Some tag, r1)"
    and "figures f (Type_of_bytes tag) = None" and "fac (Type_of_bytes tag) = Some c"
  shows "Feature_read fac reader (f, h, r) =
     (case reader sizeof_double (COUNT_PARAMS c) r1 of
        (None, r2) \<Rightarrow>
          (False, f\<lparr>figures := (figures f)(Type_of_bytes tag \<mapsto> length h)\<rparr>,
           h @ [construct c], r2)
      | (Some bs, r2) \<Rightarrow>
          (True, f\<lparr>figures := (figures f)(Type_of_bytes tag \<mapsto> length h),
                   currentFigure := Some (length h),
                   currentParams := doubles_of_bytes (COUNT_PARAMS c) bs\<rparr>,
           h @ [construct c], r2))"
  using assms
  by (simp add: Feature_read_def createFigure_def new_def construct_def Let_def
      split: prod.splits option.splits)

lemma cache_ok_extend:
  assumes "cache_ok fac f h" and "fac ty = Some c"
  shows "cache_ok fac (f\<lparr>figures := (figures f)(ty \<mapsto> length h)\<rparr>) (h @ [construct c])"
  using assms
  by (auto simp: cache_ok_def nth_append less_Suc_eq)

lemma cache_exact_extend:
  assumes "cache_exact f h" and "figures f ty = None"
  shows "cache_exact (f\<lparr>figures := (figures f)(ty \<mapsto> length h)\<rparr>) (h @ [construct c])"
proof -
  from assms(1) have
    below: "\<And>k p. figures f k = Some p \<Longrightarrow> p < length h" and
    onto: "\<And>p. p < length h \<Longrightarrow> \<exists>k. figures f k = Some p" and
    inj: "\<And>k k' p. figures f k = Some p \<Longrightarrow> figures f k' = Some p \<Longrightarrow> k = k'"
    unfolding cache_exact_def by blast+
  have "\<exists>k. ((figures f)(ty \<mapsto> length h)) k = Some p" if "p < Suc (length h)" for p
  proof (cases "p = length h")
    case True
    then show ?thesis by auto
  next
    case False
    with that have "p < length h" by simp
    from onto [OF this] obtain k where k: "figures f k = Some p" by blast
    with assms(2) have "k \<noteq> ty" by auto
    with k show ?thesis by auto
  qed
  moreover have "p < Suc (length h)" if "((figures f)(ty \<mapsto> length h)) k = Some p" for k p
    using that below [of k p] by (auto split: if_splits)
  moreover have "k = k'"
    if "((figures f)(ty \<mapsto> length h)) k = Some p" "((figures f)(ty \<mapsto> length h)) k' = Some p"
    for k k' p
    using that below [of k p] below [of k' p] inj [of k p k']
    by (auto split: if_splits)
  ultimately show ?thesis
    unfolding cache_exact_def by (simp del: fun_upd_apply)
qed

lemma cache_ok_figures:
  "figures f' = figures f \<Longrightarrow> cache_ok fac f' h = cache_ok fac f h"
  by (simp add: cache_ok_def)

lemma cache_exact_figures:
  "figures f' = figures f \<Longrightarrow> cache_exact f' h = cache_exact f h"
  by (simp add: cache_exact_def)

lemma Feature_read_hit_state:
  assumes "reader sizeof_Type 1 r = (Some tag, r1)"
    and "figures f (Type_of_bytes tag) = Some p"
    and "Feature_read fac reader (f, h, r) = (ok, f', h', r')"
  shows "figures f' = figures f \<and> h' = h \<and> (ok \<longrightarrow> currentFigure f' = Some p)"
proof -
  obtain obs r2 where rd: "reader sizeof_double (countParams (h ! p)) r1 = (obs, r2)"
    by (cases "reader sizeof_double (countParams (h ! p)) r1") auto
  have "Feature_read fac reader (f, h, r) =
     (case obs of
        None \<Rightarrow> (False, f, h, r2)
      | Some bs \<Rightarrow>
          (True, f\<lparr>currentFigure := Some p,
                   currentParams := doubles_of_bytes (countParams (h ! p)) bs\<rparr>, h, r2))"
    using assms(1,2) rd by (simp add: Feature_read_def Let_def)
  with assms(3) show ?thesis
    by (cases obs) auto
qed

lemma Feature_read_miss_state:
  assumes "reader sizeof_Type 1 r = (Some tag, r1)"
    and "figures f (Type_of_bytes tag) = None" and "fac (Type_of_bytes tag) = Some c"
    and "Feature_read fac reader (f, h, r) = (ok, f', h', r')"
  shows "figures f' = (figures f)(Type_of_bytes tag \<mapsto> length h) \<and> h' = h @ [construct c]
       \<and> (ok \<longrightarrow> currentFigure f' = Some (length h))"
proof -
  obtain obs r2 where rd: "reader sizeof_double (COUNT_PARAMS c) r1 = (obs, r2)"
    by (cases "reader sizeof_double (COUNT_PARAMS c) r1") auto
  have "Feature_read fac reader (f, h, r) =
     (case obs of
        None \<Rightarrow>
          (False, f\<lparr>figures := (figures f)(Type_of_bytes tag \<mapsto> length h)\<rparr>,
           h @ [construct c], r2)
      | Some bs \<Rightarrow>
          (True, f\<lparr>figures := (figures f)(Type_of_bytes tag \<mapsto> length h),
                   currentFigure := Some (length h),
                   currentParams := doubles_of_bytes (COUNT_PARAMS c) bs\<rparr>,
           h @ [construct c], r2))"
    using assms(1,2,3) rd
    by (simp add: Feature_read_def createFigure_def new_def construct_def Let_def
        split: option.splits)
  with assms(4) show ?thesis
    by (cases obs) auto
qed

lemma Feature_read_invariants:
  assumes "Feature_read fac reader (f, h, r) = (ok, f', h', r')"
    and "cache_ok fac f h" and "cache_exact f h"
  shows "cache_ok fac f' h' \<and> cache_exact f' h'"
proof -
  obtain otag r1 where tag: "reader sizeof_Type 1 r = (otag, r1)"
    by (cases "reader sizeof_Type 1 r") auto
  show ?thesis
  proof (cases otag)
    case None
    with tag have "reader sizeof_Type 1 r = (None, r1)" by simp
    from Feature_read_no_tag [where reader = reader and r = r, OF this, of fac f h] assms
    show ?thesis by simp
  next
    case (Some tg)
    note tag' = tag [unfolded Some]
    show ?thesis
    proof (cases "figures f (Type_of_bytes tg)")
      case (Some p)
      from Feature_read_hit_state [where reader = reader and r = r, OF tag' Some assms(1)]
      have fig: "figures f' = figures f" and heap: "h' = h"
        by simp_all
      from assms(2,3) show ?thesis
        by (simp only: heap cache_ok_figures [OF fig] cache_exact_figures [OF fig])
    next
      case None
      show ?thesis
      proof (cases "fac (Type_of_bytes tg)")
        case no: None
        from assms(1) Feature_read_unknown [where reader = reader and r = r and fac = fac and h = h, OF tag' None no]
        have "f' = f \<and> h' = h" by simp
        with assms(2,3) show ?thesis by simp
      next
        case (Some c)
        from Feature_read_miss_state [where reader = reader and r = r, OF tag' None Some assms(1)]
        have fig: "figures f' = figures (f\<lparr>figures := (figures f)(Type_of_bytes tg \<mapsto> length h)\<rparr>)"
          and heap: "h' = h @ [construct c]"
          by simp_all
        from cache_ok_extend [OF assms(2) Some] have "cache_ok fac f' h'"
          by (simp only: heap cache_ok_figures [OF fig])
        moreover from cache_exact_extend [OF assms(3) None, of c] have "cache_exact f' h'"
          by (simp only: heap cache_exact_figures [OF fig])
        ultimately show ?thesis by simp
      qed
    qed
  qed
qed

lemma step_invariants:
  assumes "step fac reader (f, h, r, d) opn = (f', h', r', d')"
    and "cache_ok fac f h" and "cache_exact f h"
  shows "cache_ok fac f' h' \<and> cache_exact f' h'"
proof (cases opn)
  case Decode
  obtain ok f1 h1 r1 where res: "Feature_read fac reader (f, h, r) = (ok, f1, h1, r1)"
    by (cases "Feature_read fac reader (f, h, r)") auto
  with assms(1) Decode have "f' = f1" "h' = h1" by simp_all
  with Feature_read_invariants [OF res assms(2,3)] show ?thesis by simp
next
  case Render
  with assms(1) have "f' = f" "h' = h"
    by (simp_all add: Feature_draw_def split: option.splits)
  with assms(2,3) show ?thesis by simp
qed

lemma run_invariants:
  assumes "run fac reader ops (f, h, r, d) = (f', h', r', d')"
    and "cache_ok fac f h" and "cache_exact f h"
  shows "cache_ok fac f' h' \<and> cache_exact f' h'"
  using assms
proof (induction ops arbitrary: f h r d)
  case Nil
  then show ?case by (simp add: run_def)
next
  case (Cons opn ops)
  obtain f1 h1 r1 d1 where st: "step fac reader (f, h, r, d) opn = (f1, h1, r1, d1)"
    by (cases "step fac reader (f, h, r, d) opn") auto
  from Cons.prems(1) st have "run fac reader ops (f1, h1, r1, d1) = (f', h', r', d')"
    by (simp add: run_def)
  moreover from step_invariants [OF st Cons.prems(2,3)]
  have "cache_ok fac f1 h1" "cache_exact f1 h1" by simp_all
  ultimately show ?case by (rule Cons.IH)
qed

lemma reachable_invariants:
  assumes "run fac reader ops (Feature_init, [], r0, d0) = (f, h, r, d)"
  shows "cache_ok fac f h \<and> cache_exact f h"
  using run_invariants [OF assms cache_ok_init cache_exact_init] .







subsection \<open>Parameter counts and the bytes a decode consumes\<close>

lemma File_read_Some:
  assumes "0 < sz"
  shows "File_read sz count (Some bs) =
     (if sz * count \<le> length bs
      then (Some (take (sz * count) bs), Some (drop (sz * count) bs))
      else (None, Some []))"
proof (cases "sz * count \<le> length bs")
  case True
  then have "min (sz * count) (length bs) = sz * count" by simp
  with True assms show ?thesis
    by (simp add: File_read_def fread_def Let_def)
next
  case False
  then have m: "min (sz * count) (length bs) = length bs" by simp
  from False assms have "length bs div sz < count"
    by (simp add: div_less_iff_less_mult mult.commute)
  with False m assms show ?thesis
    by (simp add: File_read_def fread_def Let_def)
qed

lemma length_doubles_of_bytes: "length (doubles_of_bytes n bs) = n"
  by (simp add: doubles_of_bytes_def)

text \<open>A decode whose kind is registered, from a state whose cache is sound: cached or
  not, the figure used is one built by the registered creator, and the only parameter
  read asks for that class's count.\<close>

lemma Feature_read_registered:
  assumes "cache_ok fac f h"
    and "reader sizeof_Type 1 r = (Some tag, r1)"
    and "fac (Type_of_bytes tag) = Some c"
    and "reader sizeof_double (COUNT_PARAMS c) r1 = (obs, r2)"
  shows "\<exists>p f1 h1.
           h1 ! p = construct c \<and> currentFigure f1 = currentFigure f \<and>
           currentParams f1 = currentParams f \<and>
           Feature_read fac reader (f, h, r) =
             (case obs of
                None \<Rightarrow> (False, f1, h1, r2)
              | Some bs \<Rightarrow>
                  (True, f1\<lparr>currentFigure := Some p,
                            currentParams := doubles_of_bytes (COUNT_PARAMS c) bs\<rparr>, h1, r2))"
proof (cases "figures f (Type_of_bytes tag)")
  case None
  let ?f1 = "f\<lparr>figures := (figures f)(Type_of_bytes tag \<mapsto> length h)\<rparr>"
  have "Feature_read fac reader (f, h, r) =
     (case obs of
        None \<Rightarrow> (False, ?f1, h @ [construct c], r2)
      | Some bs \<Rightarrow>
          (True, ?f1\<lparr>currentFigure := Some (length h),
                     currentParams := doubles_of_bytes (COUNT_PARAMS c) bs\<rparr>,
           h @ [construct c], r2))"
    using Feature_read_miss [where reader = reader and r = r and h = h and fac = fac and f = f
        and tag = tag and c = c, OF assms(2) None assms(3)]
      assms(4)
    by (simp split: option.splits)
  moreover have "(h @ [construct c]) ! length h = construct c" by simp
  moreover have "currentFigure ?f1 = currentFigure f" "currentParams ?f1 = currentParams f"
    by simp_all
  ultimately show ?thesis by blast
next
  case (Some p)
  with assms(1) have "\<exists>c'. fac (Type_of_bytes tag) = Some c' \<and> h ! p = construct c'"
    unfolding cache_ok_def by blast
  with assms(3) have obj: "h ! p = construct c"
    by auto
  then have n: "countParams (h ! p) = COUNT_PARAMS c"
    by (simp add: construct_def)
  have "Feature_read fac reader (f, h, r) =
     (case obs of
        None \<Rightarrow> (False, f, h, r2)
      | Some bs \<Rightarrow>
          (True, f\<lparr>currentFigure := Some p,
                   currentParams := doubles_of_bytes (COUNT_PARAMS c) bs\<rparr>, h, r2))"
    using Feature_read_hit [where reader = reader and r = r and h = h and fac = fac and f = f
        and tag = tag, OF assms(2) Some] assms(4)
    by (simp add: n split: option.splits)
  with obj show ?thesis by blast
qed

lemma Feature_read_success_registered:
  assumes "cache_ok fac f h"
    and "reader sizeof_Type 1 r = (Some tag, r1)"
    and "Feature_read fac reader (f, h, r) = (True, f', h', r')"
  shows "\<exists>c. fac (Type_of_bytes tag) = Some c"
proof (cases "figures f (Type_of_bytes tag)")
  case None
  show ?thesis
  proof (cases "fac (Type_of_bytes tag)")
    case no: None
    from Feature_read_unknown [where reader = reader and r = r and fac = fac and h = h,
        OF assms(2) None no] assms(3)
    show ?thesis by simp
  next
    case (Some c)
    then show ?thesis by simp
  qed
next
  case (Some p)
  with assms(1) show ?thesis
    by (auto simp: cache_ok_def)
qed

lemma invariants_counts:
  assumes "cache_ok fac f h" and "cache_exact f h"
  shows "\<forall>x\<in>set h. countParams x = COUNT_PARAMS (impl x)"
proof
  fix x assume "x \<in> set h"
  then obtain p where p: "p < length h" "h ! p = x"
    by (auto simp: in_set_conv_nth)
  with assms(2) obtain ty where "figures f ty = Some p"
    unfolding cache_exact_def by blast
  with assms(1) obtain c where "h ! p = construct c"
    unfolding cache_ok_def by blast
  with p show "countParams x = COUNT_PARAMS (impl x)"
    by (auto simp: construct_def)
qed

text \<open>
  Claim C7. The counts are 3 for the circle, 6 for the triangle and 8 for the square;
  the constructor stores the class's count in the object, and every figure of the store
  keeps it: a decode leaves the objects of the store as they were. From any state that a
  fresh decoder reaches while reading a file, a decode that succeeds has read the tag and
  exactly \<open>COUNT_PARAMS c\<close> doubles of the class \<open>c\<close> registered for the tag: that many
  parameters are held and the file has advanced by \<open>sizeof(Type)\<close> plus that many times
  \<open>sizeof(double)\<close> bytes. When the file holds the tag of a registered kind and fewer
  bytes than its parameters need, the decode fails and the held record is not touched.
\<close>

theorem decode_consumes_declared_count:
  assumes "run fac File_read ops (Feature_init, [], Some bs0, d0) = (f, h, Some bs, d)"
    and "Feature_read fac File_read (f, h, Some bs) = (ok, f', h', r')"
  shows "COUNT_PARAMS Circle = 3 \<and> COUNT_PARAMS Triangle = 6 \<and> COUNT_PARAMS Square = 8
       \<and> (\<forall>c. countParams (construct c) = COUNT_PARAMS c)
       \<and> take (length h) h' = h
       \<and> (\<forall>x\<in>set h'. countParams x = COUNT_PARAMS (impl x))
       \<and> (ok \<longrightarrow>
            (\<exists>c p. fac (Type_of_bytes (take sizeof_Type bs)) = Some c \<and>
               currentFigure f' = Some p \<and> h' ! p = construct c \<and>
               length (currentParams f') = COUNT_PARAMS c \<and>
               sizeof_Type + sizeof_double * COUNT_PARAMS c \<le> length bs \<and>
               currentParams f' =
                 doubles_of_bytes (COUNT_PARAMS c)
                   (take (sizeof_double * COUNT_PARAMS c) (drop sizeof_Type bs)) \<and>
               r' = Some (drop (sizeof_Type + sizeof_double * COUNT_PARAMS c) bs)))
       \<and> (\<forall>c. sizeof_Type \<le> length bs \<and>
              fac (Type_of_bytes (take sizeof_Type bs)) = Some c \<and>
              length bs < sizeof_Type + sizeof_double * COUNT_PARAMS c \<longrightarrow>
              \<not> ok \<and> currentFigure f' = currentFigure f \<and> currentParams f' = currentParams f)"
proof -
  from reachable_invariants [OF assms(1)]
  have inv: "cache_ok fac f h" "cache_exact f h" by simp_all
  from Feature_read_invariants [OF assms(2) inv]
  have inv': "cache_ok fac f' h'" "cache_exact f' h'" by simp_all
  have three: "COUNT_PARAMS Circle = 3 \<and> COUNT_PARAMS Triangle = 6 \<and> COUNT_PARAMS Square = 8"
    by simp
  have ctor: "\<forall>c. countParams (construct c) = COUNT_PARAMS c"
    by (simp add: construct_def)
  have prefix: "take (length h) h' = h"
    using assms(2) by (rule Feature_read_heap_prefix)
  have counts: "\<forall>x\<in>set h'. countParams x = COUNT_PARAMS (impl x)"
    using inv' by (rule invariants_counts)
  have tagread: "File_read sizeof_Type 1 (Some bs) =
      (Some (take sizeof_Type bs), Some (drop sizeof_Type bs))" if "sizeof_Type \<le> length bs"
    using that File_read_Some [of sizeof_Type 1 bs] by (simp add: sizeof_Type_def)
  have parread: "File_read sizeof_double n (Some (drop sizeof_Type bs)) =
     (if sizeof_Type + sizeof_double * n \<le> length bs
      then (Some (take (sizeof_double * n) (drop sizeof_Type bs)),
            Some (drop (sizeof_Type + sizeof_double * n) bs))
      else (None, Some []))" if "sizeof_Type \<le> length bs" for n
  proof -
    from that have "sizeof_double * n \<le> length (drop sizeof_Type bs)
        \<longleftrightarrow> sizeof_Type + sizeof_double * n \<le> length bs"
      by auto
    moreover have "drop (sizeof_double * n) (drop sizeof_Type bs)
        = drop (sizeof_Type + sizeof_double * n) bs"
      by (simp add: add.commute)
    moreover have "0 < sizeof_double"
      by (simp add: sizeof_double_def)
    ultimately show ?thesis
      using File_read_Some [of sizeof_double n "drop sizeof_Type bs"]
      by simp
  qed
  have success: "\<exists>c p. fac (Type_of_bytes (take sizeof_Type bs)) = Some c \<and>
               currentFigure f' = Some p \<and> h' ! p = construct c \<and>
               length (currentParams f') = COUNT_PARAMS c \<and>
               sizeof_Type + sizeof_double * COUNT_PARAMS c \<le> length bs \<and>
               currentParams f' =
                 doubles_of_bytes (COUNT_PARAMS c)
                   (take (sizeof_double * COUNT_PARAMS c) (drop sizeof_Type bs)) \<and>
               r' = Some (drop (sizeof_Type + sizeof_double * COUNT_PARAMS c) bs)" if ok
  proof -
    from that assms(2) have dec: "Feature_read fac File_read (f, h, Some bs) = (True, f', h', r')"
      by simp
    have long: "sizeof_Type \<le> length bs"
    proof (rule ccontr)
      assume "\<not> sizeof_Type \<le> length bs"
      then have "File_read sizeof_Type 1 (Some bs) = (None, Some [])"
        using File_read_Some [of sizeof_Type 1 bs] by (simp add: sizeof_Type_def)
      from Feature_read_no_tag [where reader = File_read and r = "Some bs", OF this, of fac f h] dec
      show False by simp
    qed
    note tg = tagread [OF long]
    from Feature_read_success_registered [where reader = File_read and r = "Some bs",
        OF inv(1) tg dec]
    obtain c where c: "fac (Type_of_bytes (take sizeof_Type bs)) = Some c" by blast
    obtain obs r2 where rd:
      "File_read sizeof_double (COUNT_PARAMS c) (Some (drop sizeof_Type bs)) = (obs, r2)"
      by (cases "File_read sizeof_double (COUNT_PARAMS c) (Some (drop sizeof_Type bs))") auto
    from Feature_read_registered [where reader = File_read and r = "Some bs",
        OF inv(1) tg c rd]
    obtain p f1 h1 where obj: "h1 ! p = construct c" and
      res: "Feature_read fac File_read (f, h, Some bs) =
             (case obs of
                None \<Rightarrow> (False, f1, h1, r2)
              | Some ps \<Rightarrow>
                  (True, f1\<lparr>currentFigure := Some p,
                            currentParams := doubles_of_bytes (COUNT_PARAMS c) ps\<rparr>, h1, r2))"
      by blast
    from res dec obtain ps where ps: "obs = Some ps"
      by (cases obs) auto
    from res dec ps have out: "f' = f1\<lparr>currentFigure := Some p,
        currentParams := doubles_of_bytes (COUNT_PARAMS c) ps\<rparr>" "h' = h1" "r' = r2"
      by simp_all
    from rd ps parread [OF long, of "COUNT_PARAMS c"]
    have enough: "sizeof_Type + sizeof_double * COUNT_PARAMS c \<le> length bs"
      and data: "ps = take (sizeof_double * COUNT_PARAMS c) (drop sizeof_Type bs)"
      and rest: "r2 = Some (drop (sizeof_Type + sizeof_double * COUNT_PARAMS c) bs)"
      by (auto split: if_splits)
    from c obj out enough data rest show ?thesis
      by (simp add: length_doubles_of_bytes)
  qed
  have short: "\<not> ok \<and> currentFigure f' = currentFigure f \<and> currentParams f' = currentParams f"
    if "sizeof_Type \<le> length bs" "fac (Type_of_bytes (take sizeof_Type bs)) = Some c"
      "length bs < sizeof_Type + sizeof_double * COUNT_PARAMS c" for c
  proof -
    note tg = tagread [OF that(1)]
    from parread [OF that(1), of "COUNT_PARAMS c"] that(3)
    have rd: "File_read sizeof_double (COUNT_PARAMS c) (Some (drop sizeof_Type bs))
        = (None, Some [])"
      by simp
    from Feature_read_registered [where reader = File_read and r = "Some bs",
        OF inv(1) tg that(2) rd]
    obtain f1 h1 where "currentFigure f1 = currentFigure f" "currentParams f1 = currentParams f"
      "Feature_read fac File_read (f, h, Some bs) = (False, f1, h1, Some [])"
      by auto
    with assms(2) show ?thesis by simp
  qed
  from three ctor prefix counts success short show ?thesis
    by blast
qed

theorem decode_consumes_declared_count_witness:
  "run main_factory File_read [] (Feature_init, [], Some circle_file, [])
     = (Feature_init, [], Some circle_file, [])
   \<and> Feature_read main_factory File_read (Feature_init, [], Some circle_file) = (True, circle_held)
   \<and> main_factory (Type_of_bytes (take sizeof_Type circle_file)) = Some Circle
   \<and> length (currentParams (fst circle_held)) = 3
   \<and> snd (snd circle_held) = Some (drop (4 + 8 * 3) circle_file)
   \<and> sizeof_Type \<le> length (take 20 circle_file)
   \<and> length (take 20 circle_file) < sizeof_Type + sizeof_double * COUNT_PARAMS Circle
   \<and> Feature_read main_factory File_read (Feature_init, [], Some (take 20 circle_file))
       = (False, Feature_init\<lparr>figures := [eCircle \<mapsto> 0]\<rparr>, [construct Circle], Some [])"
proof -
  have reach: "run main_factory File_read [] (Feature_init, [], Some circle_file, [])
     = (Feature_init, [], Some circle_file, [])"
    by (simp add: run_def)
  have dec: "Feature_read main_factory File_read (Feature_init, [], Some circle_file)
     = (True, fst circle_held, fst (snd circle_held), snd (snd circle_held))"
    by (simp add: decode_circle_file)
  have reg: "main_factory (Type_of_bytes (take sizeof_Type circle_file)) = Some Circle"
    by (simp add: main_factory_apply sizeof_Type_def circle_file_def
        eCircle_def eTriangle_def eSquare_def)
  note th = decode_consumes_declared_count [OF reach dec]
  from th reg have "length (currentParams (fst circle_held)) = COUNT_PARAMS Circle
       \<and> snd (snd circle_held)
           = Some (drop (sizeof_Type + sizeof_double * COUNT_PARAMS Circle) circle_file)"
    by auto
  then have held: "length (currentParams (fst circle_held)) = 3"
    "snd (snd circle_held) = Some (drop (4 + 8 * 3) circle_file)"
    by (simp_all add: sizeof_Type_def sizeof_double_def)
  have short: "sizeof_Type \<le> length (take 20 circle_file)"
    "length (take 20 circle_file) < sizeof_Type + sizeof_double * COUNT_PARAMS Circle"
    by (simp_all add: sizeof_Type_def sizeof_double_def circle_file_def)
  have fails: "Feature_read main_factory File_read (Feature_init, [], Some (take 20 circle_file))
       = (False, Feature_init\<lparr>figures := [eCircle \<mapsto> 0]\<rparr>, [construct Circle], Some [])"
    by (simp add: Feature_read_def File_read_def fread_def circle_file_def
      sizeof_Type_def sizeof_double_def main_factory_apply Feature_init_def createFigure_def
      new_def construct_def Let_def eCircle_def eTriangle_def eSquare_def)
  from reach decode_circle_file reg held short fails show ?thesis
    by simp
qed

end
